theory Spec2Isabelle
  imports Main
begin

section \<open>Collaborators of \<open>foundation::SearchPaths\<close>\<close>

text \<open>
  \<open>SearchPaths\<close> (searchpaths.cpp) stores its paths as \<open>std::string\<close> and talks to the
  file system through Boost.Filesystem only: \<open>bf::exists\<close>, \<open>bf::path::is_absolute\<close>,
  \<open>bf::path::is_relative\<close>, \<open>operator/\<close> and \<open>bf::path::make_preferred\<close>. A \<open>bf::path\<close> is
  a wrapper around the string it was built from (\<open>bf::path(s).string() = s\<close>), so paths
  are modelled as strings and the four operations are the fields of a record that every
  operation below takes as a parameter. Nothing is assumed about them unless a theorem
  says so: the theorems hold for every platform and every version of the library.

  The class has no \<open>try\<close> and no \<open>catch\<close>. An operation stops early when an \<open>assert\<close>
  fails, or when the \<open>bf::exists\<close> it calls throws: the one-argument \<open>bf::exists\<close> answers
  yes or no, and throws \<open>filesystem_error\<close> when the status of the path cannot be
  determined for another reason than the path not being there. The three outcomes are
  the values of \<open>error + bool\<close>.
\<close>

datatype error = AssertionFailure | FilesystemError

record fsys =
  bf_exists :: "string \<Rightarrow> error + bool"
  bf_is_absolute :: "string \<Rightarrow> bool"
  bf_slash :: "string \<Rightarrow> string \<Rightarrow> string"
  bf_make_preferred :: "string \<Rightarrow> string"

text \<open>\<open>bf::path::is_relative\<close> is the negation of \<open>is_absolute\<close>.\<close>

definition bf_is_relative :: "fsys \<Rightarrow> string \<Rightarrow> bool" where
  "bf_is_relative fs p = (\<not> bf_is_absolute fs p)"

section \<open>The state: \<open>SearchPaths::Impl\<close>\<close>

record Impl =
  m_root_path :: string
  m_explicit_paths :: "string list"
  m_environment_paths :: "string list"
  m_all_paths :: "string list"

text \<open>The default constructor: \<open>impl(new Impl())\<close>, every member empty.\<close>

definition SearchPaths :: Impl where
  "SearchPaths =
     \<lparr>m_root_path = [], m_explicit_paths = [], m_environment_paths = [], m_all_paths = []\<rparr>"

text \<open>
  The constructor from an environment variable. \<open>getenv(envvar)\<close> is the parameter
  \<open>env_value\<close> (\<open>None\<close> for a null pointer). \<open>foundation::split\<close> (foundation/utility/string.h)
  is not part of the sources and is the parameter \<open>splt\<close>, called with the string and the
  one-character delimiter string. The loop over the tokens is \<open>environment_loop\<close>: a token
  that is not absolute is skipped by the \<open>continue\<close>, and an absolute one is stored when it
  is not empty.
\<close>

fun environment_loop :: "fsys \<Rightarrow> string list \<Rightarrow> Impl \<Rightarrow> Impl" where
  "environment_loop fs [] s = s"
| "environment_loop fs (i # rest) s =
     (if \<not> bf_is_absolute fs i then environment_loop fs rest s
      else if i \<noteq> [] then
        environment_loop fs rest
          (s\<lparr>m_environment_paths := m_environment_paths s @ [i],
             m_all_paths := m_all_paths s @ [i]\<rparr>)
      else environment_loop fs rest s)"

definition SearchPaths_envvar ::
  "fsys \<Rightarrow> (string \<Rightarrow> string \<Rightarrow> string list) \<Rightarrow> string option \<Rightarrow> char \<Rightarrow> Impl" where
  "SearchPaths_envvar fs splt env_value separator =
     (case env_value of
        None \<Rightarrow> SearchPaths
      | Some v \<Rightarrow> environment_loop fs (splt v [separator]) SearchPaths)"

definition set_root_path :: "fsys \<Rightarrow> Impl \<Rightarrow> string \<Rightarrow> Impl" where
  "set_root_path fs s path = s\<lparr>m_root_path := bf_make_preferred fs path\<rparr>"

definition has_root_path :: "Impl \<Rightarrow> bool" where
  "has_root_path s = (m_root_path s \<noteq> [])"

definition clear :: "Impl \<Rightarrow> Impl" where
  "clear s =
     s\<lparr>m_root_path := [], m_explicit_paths := [], m_environment_paths := [],
       m_all_paths := []\<rparr>"

definition reset_sp :: "Impl \<Rightarrow> Impl" where
  "reset_sp s = s\<lparr>m_explicit_paths := [], m_all_paths := m_environment_paths s\<rparr>"

definition empty_sp :: "Impl \<Rightarrow> bool" where
  "empty_sp s = (m_explicit_paths s = [])"

definition size_sp :: "Impl \<Rightarrow> nat" where
  "size_sp s = length (m_explicit_paths s)"

text \<open>
  \<open>operator[]\<close>: \<open>assert(i < size())\<close>, then the \<open>i\<close>-th explicit path. The index is a
  \<open>size_t\<close>, hence never negative.
\<close>

definition operator_index :: "Impl \<Rightarrow> nat \<Rightarrow> error + string" where
  "operator_index s i =
     (if i < size_sp s then Inr (m_explicit_paths s ! i) else Inl AssertionFailure)"

text \<open>
  \<open>push_back\<close>: the path is a C string; \<open>assert(path)\<close> excludes the null pointer, which a
  \<open>string\<close> never is.
\<close>

definition push_back :: "Impl \<Rightarrow> string \<Rightarrow> Impl" where
  "push_back s path =
     s\<lparr>m_explicit_paths := m_explicit_paths s @ [path], m_all_paths := m_all_paths s @ [path]\<rparr>"

text \<open>\<open>split_and_push_back\<close>: \<open>push_back\<close> of every token, first to last.\<close>

fun push_back_each :: "Impl \<Rightarrow> string list \<Rightarrow> Impl" where
  "push_back_each s [] = s"
| "push_back_each s (i # rest) = push_back_each (push_back s i) rest"

definition split_and_push_back ::
  "(string \<Rightarrow> string \<Rightarrow> string list) \<Rightarrow> Impl \<Rightarrow> string \<Rightarrow> char \<Rightarrow> Impl" where
  "split_and_push_back splt s paths separator = push_back_each s (splt paths [separator])"

text \<open>\<open>std::vector::erase(begin() + i)\<close> for \<open>i\<close> within the vector.\<close>

definition erase :: "'a list \<Rightarrow> nat \<Rightarrow> 'a list" where
  "erase xs i = take i xs @ drop (Suc i) xs"

text \<open>
  \<open>remove\<close>: \<open>assert(i < size())\<close>, then the erase from \<open>m_explicit_paths\<close>. No other member
  is written.
\<close>

definition remove :: "Impl \<Rightarrow> nat \<Rightarrow> error + Impl" where
  "remove s i =
     (if i < size_sp s then Inr (s\<lparr>m_explicit_paths := erase (m_explicit_paths s) i\<rparr>)
      else Inl AssertionFailure)"

section \<open>Lookups\<close>

text \<open>
  \<open>exist\<close>. Every question put to the file system is an effect of the call, so the model
  returns, beside the outcome, the paths handed to \<open>bf::exists\<close> in the order of the
  calls. The outcome is \<open>Inr\<close> of the boolean returned, or \<open>Inl\<close> of the error when a call
  of \<open>bf::exists\<close> throws, which ends the function there. \<open>exist_search\<close> is the loop over
  \<open>m_all_paths\<close> from \<open>rbegin()\<close> to \<open>rend()\<close>; it is called on the reversed vector, and
  \<open>Inr True\<close> is its \<open>return true\<close>, \<open>Inr False\<close> the end of the loop.
\<close>

fun exist_search ::
  "fsys \<Rightarrow> Impl \<Rightarrow> string \<Rightarrow> string list \<Rightarrow> (error + bool) \<times> string list" where
  "exist_search fs s fp [] = (Inr False, [])"
| "exist_search fs s fp (i # rest) =
     (let search_path =
            (if has_root_path s \<and> bf_is_relative fs i then bf_slash fs (m_root_path s) i
             else i);
          candidate = bf_slash fs search_path fp
      in case bf_exists fs candidate of
           Inl e \<Rightarrow> (Inl e, [candidate])
         | Inr hit \<Rightarrow>
             if hit then (Inr True, [candidate])
             else (case exist_search fs s fp rest of
                     (found, asked) \<Rightarrow> (found, candidate # asked)))"

definition exist :: "fsys \<Rightarrow> Impl \<Rightarrow> string \<Rightarrow> (error + bool) \<times> string list" where
  "exist fs s fp =
     (if \<not> bf_is_absolute fs fp then
        (case exist_search fs s fp (rev (m_all_paths s)) of
           (Inl e, asked) \<Rightarrow> (Inl e, asked)
         | (Inr found, asked) \<Rightarrow>
             if found then (Inr True, asked)
             else if has_root_path s then
               (case bf_exists fs (bf_slash fs (m_root_path s) fp) of
                  Inl e \<Rightarrow> (Inl e, asked @ [bf_slash fs (m_root_path s) fp])
                | Inr hit \<Rightarrow>
                    if hit then (Inr True, asked @ [bf_slash fs (m_root_path s) fp])
                    else (bf_exists fs fp, asked @ [bf_slash fs (m_root_path s) fp, fp]))
             else (bf_exists fs fp, asked @ [fp]))
      else (bf_exists fs fp, [fp]))"

text \<open>
  \<open>do_qualify\<close>. The outcome is \<open>Inr\<close> of the string stored through
  \<open>qualified_filepath_cstr\<close> and the value stored through \<open>search_path_cstr\<close> when the
  caller passes that pointer (\<open>None\<close> for the null pointer \<open>0\<close>), or \<open>Inl\<close> of the error when
  a call of \<open>bf::exists\<close> throws; with it, again, the paths handed to \<open>bf::exists\<close>.
  \<open>qualify_search\<close> is the loop: \<open>Inr (Some _)\<close> is its \<open>return\<close>, \<open>Inr None\<close> its end.
\<close>

fun qualify_search ::
  "fsys \<Rightarrow> Impl \<Rightarrow> string \<Rightarrow> string list
     \<Rightarrow> (error + (string \<times> string) option) \<times> string list" where
  "qualify_search fs s fp [] = (Inr None, [])"
| "qualify_search fs s fp (i # rest) =
     (let search_path =
            (if has_root_path s \<and> bf_is_relative fs i then bf_slash fs (m_root_path s) i
             else i);
          qualified_fp = bf_slash fs search_path fp
      in case bf_exists fs qualified_fp of
           Inl e \<Rightarrow> (Inl e, [qualified_fp])
         | Inr hit \<Rightarrow>
             if hit then (Inr (Some (bf_make_preferred fs qualified_fp, i)), [qualified_fp])
             else (case qualify_search fs s fp rest of
                     (found, asked) \<Rightarrow> (found, qualified_fp # asked)))"

definition do_qualify ::
  "fsys \<Rightarrow> Impl \<Rightarrow> string \<Rightarrow> (error + string \<times> string option) \<times> string list" where
  "do_qualify fs s fp =
     (if \<not> bf_is_absolute fs fp then
        (case qualify_search fs s fp (rev (m_all_paths s)) of
           (Inl e, asked) \<Rightarrow> (Inl e, asked)
         | (Inr (Some (qualified, i)), asked) \<Rightarrow> (Inr (qualified, Some i), asked)
         | (Inr None, asked) \<Rightarrow>
             if has_root_path s then
               (let qualified_fp = bf_slash fs (m_root_path s) fp
                in case bf_exists fs qualified_fp of
                     Inl e \<Rightarrow> (Inl e, asked @ [qualified_fp])
                   | Inr hit \<Rightarrow>
                       if hit
                       then (Inr (bf_make_preferred fs qualified_fp, None),
                             asked @ [qualified_fp])
                       else (Inr (fp, None), asked @ [qualified_fp]))
             else (Inr (fp, None), asked))
      else (Inr (fp, None), []))"

text \<open>
  \<open>do_to_string\<close>. \<open>append_path\<close> is the end of the loop body (the separator when
  \<open>paths_str\<close> is not empty, then the path); \<open>to_string_loop\<close> is the loop over \<open>paths\<close>.
\<close>

definition append_path :: "char \<Rightarrow> string \<Rightarrow> string \<Rightarrow> string" where
  "append_path separator paths_str p =
     (if paths_str \<noteq> [] then paths_str @ [separator] else paths_str) @ p"

fun to_string_loop :: "fsys \<Rightarrow> Impl \<Rightarrow> bool \<Rightarrow> char \<Rightarrow> string list \<Rightarrow> string \<Rightarrow> string" where
  "to_string_loop fs s root_path separator [] paths_str = paths_str"
| "to_string_loop fs s root_path separator (p # rest) paths_str =
     (if bf_is_relative fs p then
        (if \<not> root_path then to_string_loop fs s root_path separator rest paths_str
         else to_string_loop fs s root_path separator rest
                (append_path separator paths_str (bf_slash fs (m_root_path s) p)))
      else to_string_loop fs s root_path separator rest (append_path separator paths_str p))"

definition do_to_string :: "fsys \<Rightarrow> Impl \<Rightarrow> char \<Rightarrow> bool \<Rightarrow> string" where
  "do_to_string fs s separator reversed =
     (let root_path = has_root_path s;
          paths = (if root_path then [m_root_path s] else []) @ m_all_paths s;
          ordered = (if reversed then rev paths else paths)
      in to_string_loop fs s root_path separator ordered [])"

section \<open>What the specification says, in its own words\<close>

text \<open>
  A relative search path is anchored under the root when a root is set.
\<close>

definition anchored :: "fsys \<Rightarrow> Impl \<Rightarrow> string \<Rightarrow> string" where
  "anchored fs s i =
     (if has_root_path s \<and> bf_is_relative fs i then bf_slash fs (m_root_path s) i else i)"

text \<open>
  The search chain of a relative target: the combined paths from the last appended to
  the first, each anchored and joined with the target, then the root joined with the
  target when a root is set. \<open>exists\<close> ends the chain with the target itself.
\<close>

definition search_chain :: "fsys \<Rightarrow> Impl \<Rightarrow> string \<Rightarrow> string list" where
  "search_chain fs s fp =
     map (\<lambda>i. bf_slash fs (anchored fs s i) fp) (rev (m_all_paths s))
     @ (if has_root_path s then [bf_slash fs (m_root_path s) fp] else [])"

definition exists_chain :: "fsys \<Rightarrow> Impl \<Rightarrow> string \<Rightarrow> string list" where
  "exists_chain fs s fp = search_chain fs s fp @ [fp]"

text \<open>
  Testing a chain in order and stopping at the first path that \<open>P\<close> holds of asks for
  the paths \<open>asked_until P\<close>. A walk of a lookup stops at the first test that does not
  answer no (\<open>stops\<close>): a hit (\<open>hits\<close>), or a test that fails. Its outcome, \<open>walk\<close>, is
  true at a hit, the error of a failing test, and false when every test answers no. A
  test \<open>answers\<close> when it does not fail.
\<close>

fun asked_until :: "('a \<Rightarrow> bool) \<Rightarrow> 'a list \<Rightarrow> 'a list" where
  "asked_until P [] = []"
| "asked_until P (x # xs) = (if P x then [x] else x # asked_until P xs)"

fun walk :: "(string \<Rightarrow> error + bool) \<Rightarrow> string list \<Rightarrow> error + bool" where
  "walk test [] = Inr False"
| "walk test (p # ps) =
     (case test p of Inl e \<Rightarrow> Inl e | Inr hit \<Rightarrow> if hit then Inr True else walk test ps)"

definition stops :: "fsys \<Rightarrow> string \<Rightarrow> bool" where
  "stops fs p = (bf_exists fs p \<noteq> Inr False)"

definition hits :: "fsys \<Rightarrow> string \<Rightarrow> bool" where
  "hits fs p = (bf_exists fs p = Inr True)"

definition answers :: "fsys \<Rightarrow> string \<Rightarrow> bool" where
  "answers fs p = (\<not> isl (bf_exists fs p))"

text \<open>
  The combined paths are the environment paths followed by the explicit paths.
\<close>

definition all_paths_consistent :: "Impl \<Rightarrow> bool" where
  "all_paths_consistent s = (m_all_paths s = m_environment_paths s @ m_explicit_paths s)"

text \<open>
  The effective search order that \<open>to_string\<close> is to print: the root when one is set,
  then the combined paths in stored order, each anchored, without the relative ones when
  there is no root. \<open>join_with\<close> puts the separator between two neighbours.
\<close>

definition effective_paths :: "fsys \<Rightarrow> Impl \<Rightarrow> string list" where
  "effective_paths fs s =
     (if has_root_path s then [m_root_path s] else [])
     @ map (anchored fs s)
         (filter (\<lambda>p. has_root_path s \<or> bf_is_absolute fs p) (m_all_paths s))"

fun join_with :: "char \<Rightarrow> string list \<Rightarrow> string" where
  "join_with separator [] = []"
| "join_with separator (p # ps) = p @ concat (map (\<lambda>q. separator # q) ps)"

text \<open>
  Modelled from the spec: \<open>foundation::split\<close> (foundation/utility/string.h) is missing
  from the sources. The specification has it cut the string at every separator and
  keep empty tokens, \<open>a:b::c\<close> giving the four tokens \<open>a\<close>, \<open>b\<close>, the empty one and \<open>c\<close>:
  a string with \<open>n\<close> delimiters has \<open>n + 1\<close> tokens.
\<close>

fun split :: "string \<Rightarrow> string \<Rightarrow> string list" where
  "split [] delimiters = [[]]"
| "split (c # cs) delimiters =
     (if c \<in> set delimiters then [] # split cs delimiters
      else (case split cs delimiters of
              [] \<Rightarrow> [[c]]
            | token # tokens \<Rightarrow> (c # token) # tokens))"

text \<open>
  Modelled from the spec: Boost.Filesystem is missing from the sources. This is the
  file-system collaborator of the specification in the POSIX reading of its examples
  (\<open>/proj\<close>, \<open>/abs/shaders\<close>, \<open>textures\<close>), over a given list of existing files: a
  path is absolute when it starts with a slash, joining inserts one slash unless a side
  is empty or brings its own, and the preferred separator is the slash itself. It is
  used to run the operations on concrete inputs only; no general theorem depends on it.
  \<open>posix\<close> answers every existence test; \<open>posix_denied\<close> has, beside the files, paths
  whose status cannot be read, where the test throws.
\<close>

definition posix_is_absolute :: "string \<Rightarrow> bool" where
  "posix_is_absolute p = (case p of [] \<Rightarrow> False | c # _ \<Rightarrow> c = CHR ''/'')"

definition posix_slash :: "string \<Rightarrow> string \<Rightarrow> string" where
  "posix_slash a b =
     (if b = [] then a
      else if a = [] then b
      else if last a = CHR ''/'' \<or> posix_is_absolute b then a @ b
      else a @ ''/'' @ b)"

definition posix_denied :: "string list \<Rightarrow> string list \<Rightarrow> fsys" where
  "posix_denied files denied =
     \<lparr>bf_exists = (\<lambda>p. if p \<in> set denied then Inl FilesystemError else Inr (p \<in> set files)),
      bf_is_absolute = posix_is_absolute, bf_slash = posix_slash,
      bf_make_preferred = (\<lambda>p. p)\<rparr>"

definition posix :: "string list \<Rightarrow> fsys" where
  "posix files = posix_denied files []"

section \<open>State mutation\<close>

text \<open>
  C6: \<open>reset\<close> is idempotent, and from any state it leaves no explicit path and
  \<open>m_all_paths\<close> equal to \<open>m_environment_paths\<close>, which it does not change (nor the root
  path).
\<close>

theorem C6_reset:
  "reset_sp (reset_sp s) = reset_sp s
   \<and> size_sp (reset_sp s) = 0
   \<and> m_explicit_paths (reset_sp s) = []
   \<and> m_all_paths (reset_sp s) = m_environment_paths s
   \<and> m_environment_paths (reset_sp s) = m_environment_paths s
   \<and> m_root_path (reset_sp s) = m_root_path s"
  by (simp add: reset_sp_def size_sp_def)

subsection \<open>The constructor from an environment variable\<close>

lemma environment_loop_filter:
  "environment_loop fs tokens s =
     s\<lparr>m_environment_paths :=
         m_environment_paths s @ filter (\<lambda>t. bf_is_absolute fs t \<and> t \<noteq> []) tokens,
       m_all_paths := m_all_paths s @ filter (\<lambda>t. bf_is_absolute fs t \<and> t \<noteq> []) tokens\<rparr>"
  by (induction tokens arbitrary: s) simp_all

text \<open>
  C7: without the variable the constructor builds the empty state. With it, the
  environment paths and the combined paths are both the tokens of the split, in order,
  that are absolute and not empty; there is no explicit path and no root. Hence every
  environment path is absolute (and not empty). This holds for every splitting function
  and every notion of an absolute path.
\<close>

theorem C7_environment_constructor:
  "SearchPaths_envvar fs splt None separator = SearchPaths
   \<and> m_environment_paths (SearchPaths_envvar fs splt (Some v) separator)
       = filter (\<lambda>t. bf_is_absolute fs t \<and> t \<noteq> []) (splt v [separator])
   \<and> m_all_paths (SearchPaths_envvar fs splt (Some v) separator)
       = filter (\<lambda>t. bf_is_absolute fs t \<and> t \<noteq> []) (splt v [separator])
   \<and> m_explicit_paths (SearchPaths_envvar fs splt (Some v) separator) = []
   \<and> m_root_path (SearchPaths_envvar fs splt (Some v) separator) = []
   \<and> (\<forall>p \<in> set (m_environment_paths (SearchPaths_envvar fs splt env_value separator)).
         bf_is_absolute fs p \<and> p \<noteq> [])"
  by (cases env_value)
     (simp_all add: SearchPaths_envvar_def environment_loop_filter SearchPaths_def)

theorem C7_environment_constructor_witness:
  "m_environment_paths
     (SearchPaths_envvar (posix []) split (Some ''/usr/lib:plugins::/opt/osl'') CHR '':'')
   = [''/usr/lib'', ''/opt/osl'']
   \<and> m_all_paths
     (SearchPaths_envvar (posix []) split (Some ''/usr/lib:plugins::/opt/osl'') CHR '':'')
   = [''/usr/lib'', ''/opt/osl'']"
  using C7_environment_constructor [of "posix []" split "CHR '':''"
      "''/usr/lib:plugins::/opt/osl''" "Some ''/usr/lib:plugins::/opt/osl''"]
  by (simp add: posix_def posix_denied_def posix_is_absolute_def)

subsection \<open>Appending\<close>

lemma push_back_each_append:
  "push_back_each s tokens =
     s\<lparr>m_explicit_paths := m_explicit_paths s @ tokens, m_all_paths := m_all_paths s @ tokens\<rparr>"
  by (induction tokens arbitrary: s) (simp_all add: push_back_def)

lemma split_not_empty: "split xs ds \<noteq> []"
  by (induction xs) (simp_all split: list.splits)

lemma length_split: "length (split xs ds) = Suc (length (filter (\<lambda>c. c \<in> set ds) xs))"
  by (induction xs) (auto simp: split_not_empty split: list.splits)

text \<open>
  C8: \<open>split_and_push_back\<close> appends every token of the split, in order and without
  dropping any, to the explicit paths and to the combined paths, whatever the splitting
  function; the environment paths and the root stay. With the \<open>split\<close> of the
  specification one path is added per separator and one more, and \<open>a:b::c\<close> on the empty
  state gives the four explicit paths \<open>a\<close>, \<open>b\<close>, the empty string and \<open>c\<close>.
\<close>

theorem C8_split_and_push_back:
  "m_explicit_paths (split_and_push_back splt s paths separator)
     = m_explicit_paths s @ splt paths [separator]
   \<and> m_all_paths (split_and_push_back splt s paths separator)
     = m_all_paths s @ splt paths [separator]
   \<and> m_environment_paths (split_and_push_back splt s paths separator) = m_environment_paths s
   \<and> m_root_path (split_and_push_back splt s paths separator) = m_root_path s
   \<and> size_sp (split_and_push_back split s paths separator)
     = size_sp s + Suc (length (filter (\<lambda>c. c = separator) paths))
   \<and> m_explicit_paths (split_and_push_back split SearchPaths ''a:b::c'' CHR '':'')
     = [''a'', ''b'', [], ''c'']"
  by (simp add: split_and_push_back_def push_back_each_append length_split size_sp_def
      SearchPaths_def)

subsection \<open>Indexed read and remove\<close>

text \<open>
  C9: with \<open>i < size()\<close> the assertions of \<open>operator[]\<close> and \<open>remove\<close> hold, the read
  returns the \<open>i\<close>-th explicit path, and the remove returns the state whose explicit
  paths are the old ones without the \<open>i\<close>-th: one fewer, the ones before \<open>i\<close> in place
  and the ones behind it moved down by one. With any other index both operations stop
  at their assertion and return nothing.
\<close>

theorem C9_index_contract:
  "(i < size_sp s \<longrightarrow>
      operator_index s i = Inr (m_explicit_paths s ! i)
      \<and> remove s i = Inr (s\<lparr>m_explicit_paths := erase (m_explicit_paths s) i\<rparr>)
      \<and> length (erase (m_explicit_paths s) i) = size_sp s - 1
      \<and> (\<forall>j < size_sp s - 1.
            erase (m_explicit_paths s) i ! j = m_explicit_paths s ! (if j < i then j else Suc j)))
   \<and> (\<not> i < size_sp s \<longrightarrow>
      operator_index s i = Inl AssertionFailure \<and> remove s i = Inl AssertionFailure)"
  by (auto simp: operator_index_def remove_def size_sp_def erase_def nth_append min_def)

theorem C9_index_contract_witness:
  "operator_index (push_back (push_back (push_back SearchPaths ''a'') ''b'') ''c'') 1 = Inr ''b''
   \<and> (\<exists>s'. remove (push_back (push_back (push_back SearchPaths ''a'') ''b'') ''c'') 1 = Inr s'
          \<and> m_explicit_paths s' = [''a'', ''c''])
   \<and> operator_index (push_back (push_back (push_back SearchPaths ''a'') ''b'') ''c'') 3
       = Inl AssertionFailure
   \<and> remove (push_back (push_back (push_back SearchPaths ''a'') ''b'') ''c'') 3
       = Inl AssertionFailure"
  using C9_index_contract [of 1 "push_back (push_back (push_back SearchPaths ''a'') ''b'') ''c''"]
    C9_index_contract [of 3 "push_back (push_back (push_back SearchPaths ''a'') ''b'') ''c''"]
  by (simp add: push_back_def SearchPaths_def size_sp_def erase_def)

subsection \<open>The combined paths after a remove\<close>

text \<open>
  Every operation that writes a path collection but \<open>remove\<close> keeps the combined paths
  equal to the environment paths followed by the explicit paths.
\<close>

lemma all_paths_consistent_kept:
  "all_paths_consistent SearchPaths"
  "all_paths_consistent (SearchPaths_envvar fs splt env_value separator)"
  "all_paths_consistent s \<Longrightarrow> all_paths_consistent (set_root_path fs s path)"
  "all_paths_consistent (clear s)"
  "all_paths_consistent (reset_sp s)"
  "all_paths_consistent s \<Longrightarrow> all_paths_consistent (push_back s path)"
  "all_paths_consistent s \<Longrightarrow> all_paths_consistent (split_and_push_back splt s paths separator)"
  by (cases env_value;
      simp add: all_paths_consistent_def SearchPaths_def SearchPaths_envvar_def
        environment_loop_filter set_root_path_def clear_def reset_sp_def push_back_def
        split_and_push_back_def push_back_each_append)+

text \<open>
  C1, on the code: from the empty state, \<open>push_back("a")\<close> gives a state whose combined
  paths are the environment paths followed by the explicit paths, and \<open>remove(0)\<close> then
  gives a state that has no environment path and no explicit path while \<open>a\<close> is still
  among the combined paths.
\<close>

theorem C1_remove_keeps_combined_entry:
  "all_paths_consistent (push_back SearchPaths ''a'')
   \<and> remove (push_back SearchPaths ''a'') 0
       = Inr \<lparr>m_root_path = [], m_explicit_paths = [], m_environment_paths = [],
              m_all_paths = [''a'']\<rparr>
   \<and> \<not> all_paths_consistent
         \<lparr>m_root_path = [], m_explicit_paths = [], m_environment_paths = [],
          m_all_paths = [''a'']\<rparr>"
  by (simp add: all_paths_consistent_def remove_def push_back_def SearchPaths_def size_sp_def
      erase_def)

text \<open>
  C4, on the code: \<open>push_back(p)\<close> followed by \<open>remove(size() - 1)\<close> gives back the
  explicit paths and their count, and leaves \<open>p\<close> at the end of the combined paths,
  which therefore differ from the ones before the \<open>push_back\<close>, in every state.
\<close>

theorem C4_push_back_remove:
  "remove (push_back s p) (size_sp (push_back s p) - 1)
     = Inr (s\<lparr>m_all_paths := m_all_paths s @ [p]\<rparr>)
   \<and> size_sp (s\<lparr>m_all_paths := m_all_paths s @ [p]\<rparr>) = size_sp s
   \<and> m_explicit_paths (s\<lparr>m_all_paths := m_all_paths s @ [p]\<rparr>) = m_explicit_paths s
   \<and> m_all_paths (s\<lparr>m_all_paths := m_all_paths s @ [p]\<rparr>) \<noteq> m_all_paths s"
  by (simp add: remove_def push_back_def size_sp_def erase_def)

section \<open>The lookups and their search chain\<close>

lemma asked_until_no_hit: "\<not> list_ex P xs \<Longrightarrow> asked_until P xs = xs"
  by (induction xs) simp_all

lemma asked_until_append:
  "asked_until P (xs @ ys) = (if list_ex P xs then asked_until P xs else xs @ asked_until P ys)"
  by (induction xs) simp_all

lemma stops_cases:
  "stops fs p = (case bf_exists fs p of Inl e \<Rightarrow> True | Inr hit \<Rightarrow> hit)"
  by (simp add: stops_def split: sum.splits)

lemma walk_append:
  "walk (bf_exists fs) (xs @ ys) =
     (if list_ex (stops fs) xs then walk (bf_exists fs) xs else walk (bf_exists fs) ys)"
  by (induction xs) (simp_all add: stops_cases split: sum.splits)

lemma walk_no_stop: "\<not> list_ex (stops fs) xs \<Longrightarrow> walk (bf_exists fs) xs = Inr False"
  by (induction xs) (simp_all add: stops_cases split: sum.splits)

lemma walk_answers:
  "list_all (answers fs) (asked_until (stops fs) xs) \<Longrightarrow>
   walk (bf_exists fs) xs = Inr (list_ex (hits fs) xs)"
  by (induction xs) (auto simp: stops_cases answers_def hits_def split: sum.splits)

lemma walk_fails:
  "\<not> list_all (answers fs) (asked_until (stops fs) xs) \<Longrightarrow> isl (walk (bf_exists fs) xs)"
  by (induction xs) (auto simp: stops_cases answers_def split: sum.splits if_splits)

lemma exist_search_walk:
  "exist_search fs s fp xs =
     (walk (bf_exists fs) (map (\<lambda>i. bf_slash fs (anchored fs s i) fp) xs),
      asked_until (stops fs) (map (\<lambda>i. bf_slash fs (anchored fs s i) fp) xs))"
  by (induction xs) (simp_all add: Let_def anchored_def stops_cases split: sum.splits)

lemma walk_stop: "list_ex (stops fs) xs \<Longrightarrow> walk (bf_exists fs) xs \<noteq> Inr False"
  by (induction xs) (auto simp: stops_cases split: sum.splits)

lemma exist_walk:
  "exist fs s fp =
     (walk (bf_exists fs) (if bf_is_absolute fs fp then [fp] else exists_chain fs s fp),
      asked_until (stops fs) (if bf_is_absolute fs fp then [fp] else exists_chain fs s fp))"
proof (cases "bf_is_absolute fs fp")
  case True
  then show ?thesis
    by (simp add: exist_def split: sum.splits)
next
  case False
  let ?walk = "map (\<lambda>i. bf_slash fs (anchored fs s i) fp) (rev (m_all_paths s))"
  show ?thesis
  proof (cases "list_ex (stops fs) ?walk")
    case True
    with False walk_stop [OF True] show ?thesis
      by (auto simp: exist_def exist_search_walk exists_chain_def search_chain_def
          asked_until_append walk_append split: sum.splits)
  next
    case no: False
    with False show ?thesis
      by (auto simp: exist_def exist_search_walk exists_chain_def search_chain_def
          asked_until_append walk_append walk_no_stop asked_until_no_hit stops_cases
          split: sum.splits)
  qed
qed

text \<open>
  C2, as amended: \<open>exist\<close> tests the paths of a chain in order and stops at the first
  test that does not answer no. For an absolute target the chain is the target alone.
  For a relative target it is the combined paths from the last appended to the first,
  each anchored under the root when it is relative and a root is set and joined with the
  target, then the root joined with the target when a root is set, then the target
  itself. The outcome is that of the walk: true at the first path that exists, the error
  of the first test that fails when that comes before any hit, false when every test
  answers no. So when every test made answers, \<open>exist\<close> returns whether a path of the
  chain exists; when a test made fails, \<open>exist\<close> fails with it.
\<close>

theorem C2_exist:
  "exist fs s fp =
     (walk (bf_exists fs) (if bf_is_absolute fs fp then [fp] else exists_chain fs s fp),
      asked_until (stops fs) (if bf_is_absolute fs fp then [fp] else exists_chain fs s fp))
   \<and> (list_all (answers fs) (snd (exist fs s fp)) \<longrightarrow>
        fst (exist fs s fp) =
          Inr (list_ex (hits fs) (if bf_is_absolute fs fp then [fp] else exists_chain fs s fp)))
   \<and> (\<not> list_all (answers fs) (snd (exist fs s fp)) \<longrightarrow> isl (fst (exist fs s fp)))"
  by (simp add: exist_walk walk_answers walk_fails)

theorem C2_exist_witness:
  "exist (posix [''/proj/textures/wood.png'', ''/proj/wood.png''])
     (push_back (push_back (set_root_path (posix []) SearchPaths ''/proj'') ''textures'')
        ''/abs/shaders'')
     ''wood.png''
   = (Inr True, [''/abs/shaders/wood.png'', ''/proj/textures/wood.png''])
   \<and> exist (posix [])
     (push_back (push_back (set_root_path (posix []) SearchPaths ''/proj'') ''textures'')
        ''/abs/shaders'')
     ''wood.png''
   = (Inr False, [''/abs/shaders/wood.png'', ''/proj/textures/wood.png'', ''/proj/wood.png'',
        ''wood.png''])
   \<and> exist (posix [''/tmp/wood.png''])
     (push_back (push_back (set_root_path (posix []) SearchPaths ''/proj'') ''textures'')
        ''/abs/shaders'')
     ''/tmp/wood.png''
   = (Inr True, [''/tmp/wood.png''])
   \<and> exist (posix_denied [''/proj/wood.png''] [''/proj/textures/wood.png''])
     (push_back (push_back (set_root_path (posix []) SearchPaths ''/proj'') ''textures'')
        ''/abs/shaders'')
     ''wood.png''
   = (Inl FilesystemError, [''/abs/shaders/wood.png'', ''/proj/textures/wood.png''])"
  using C2_exist [of "posix [''/proj/textures/wood.png'', ''/proj/wood.png'']"
      "push_back (push_back (set_root_path (posix []) SearchPaths ''/proj'') ''textures'')
        ''/abs/shaders''" "''wood.png''"]
    C2_exist [of "posix []"
      "push_back (push_back (set_root_path (posix []) SearchPaths ''/proj'') ''textures'')
        ''/abs/shaders''" "''wood.png''"]
    C2_exist [of "posix [''/tmp/wood.png'']"
      "push_back (push_back (set_root_path (posix []) SearchPaths ''/proj'') ''textures'')
        ''/abs/shaders''" "''/tmp/wood.png''"]
    C2_exist [of "posix_denied [''/proj/wood.png''] [''/proj/textures/wood.png'']"
      "push_back (push_back (set_root_path (posix []) SearchPaths ''/proj'') ''textures'')
        ''/abs/shaders''" "''wood.png''"]
  by (simp add: posix_def posix_denied_def posix_slash_def posix_is_absolute_def push_back_def
      set_root_path_def SearchPaths_def exists_chain_def search_chain_def anchored_def
      has_root_path_def bf_is_relative_def stops_def hits_def answers_def)

text \<open>
  In the scenario of the specification, with the status of \<open>/abs/shaders/wood.png\<close>
  unreadable and \<open>/proj/wood.png\<close> on disk, \<open>exist\<close> returns no boolean: the first test
  throws, and no later candidate is tested.
\<close>

theorem C2_exist_counterexample:
  "exist (posix_denied [''/proj/wood.png''] [''/abs/shaders/wood.png''])
     (push_back (push_back (set_root_path (posix []) SearchPaths ''/proj'') ''textures'')
        ''/abs/shaders'')
     ''wood.png''
   = (Inl FilesystemError, [''/abs/shaders/wood.png''])"
  by (simp add: exist_def posix_def posix_denied_def posix_slash_def posix_is_absolute_def
      push_back_def set_root_path_def SearchPaths_def has_root_path_def bf_is_relative_def)

lemma qualify_search_find:
  "qualify_search fs s fp xs =
     ((case find (\<lambda>i. stops fs (bf_slash fs (anchored fs s i) fp)) xs of
         None \<Rightarrow> Inr None
       | Some i \<Rightarrow>
           (case bf_exists fs (bf_slash fs (anchored fs s i) fp) of
              Inl e \<Rightarrow> Inl e
            | Inr hit \<Rightarrow> Inr (Some (bf_make_preferred fs (bf_slash fs (anchored fs s i) fp), i)))),
      asked_until (stops fs) (map (\<lambda>i. bf_slash fs (anchored fs s i) fp) xs))"
  by (induction xs) (simp_all add: Let_def anchored_def stops_cases split: sum.splits)

lemma list_ex_map_find:
  "list_ex P (map f xs) = (find (\<lambda>i. P (f i)) xs \<noteq> None)"
  by (induction xs) simp_all

lemma find_stops_hits:
  "list_all (answers fs) (asked_until (stops fs) (map f xs)) \<Longrightarrow>
   find (\<lambda>i. stops fs (f i)) xs = find (\<lambda>i. hits fs (f i)) xs"
  by (induction xs) (auto simp: stops_cases answers_def hits_def split: sum.splits)

lemma find_Some_holds: "find P xs = Some x \<Longrightarrow> P x"
  by (induction xs) (auto split: if_splits)

lemma do_qualify_find:
  "do_qualify fs s fp =
     ((if bf_is_absolute fs fp then Inr (fp, None)
       else
         (case find (\<lambda>i. stops fs (bf_slash fs (anchored fs s i) fp)) (rev (m_all_paths s)) of
            Some i \<Rightarrow>
              (case bf_exists fs (bf_slash fs (anchored fs s i) fp) of
                 Inl e \<Rightarrow> Inl e
               | Inr hit \<Rightarrow> Inr (bf_make_preferred fs (bf_slash fs (anchored fs s i) fp), Some i))
          | None \<Rightarrow>
              if has_root_path s then
                (case bf_exists fs (bf_slash fs (m_root_path s) fp) of
                   Inl e \<Rightarrow> Inl e
                 | Inr hit \<Rightarrow>
                     if hit then Inr (bf_make_preferred fs (bf_slash fs (m_root_path s) fp), None)
                     else Inr (fp, None))
              else Inr (fp, None))),
      asked_until (stops fs) (if bf_is_absolute fs fp then [] else search_chain fs s fp))"
  by (auto simp: do_qualify_def qualify_search_find search_chain_def asked_until_append
      asked_until_no_hit list_ex_map_find Let_def stops_cases
      split: option.splits sum.splits)

lemma asked_root_answers:
  "list_all (answers fs) (xs @ [p]) \<Longrightarrow> bf_exists fs p = Inr (hits fs p)"
  by (cases "bf_exists fs p") (auto simp: answers_def hits_def)

lemma walk_map_find:
  "walk (bf_exists fs) (map f xs) =
     (case find (\<lambda>i. stops fs (f i)) xs of
        None \<Rightarrow> Inr False
      | Some i \<Rightarrow> (case bf_exists fs (f i) of Inl e \<Rightarrow> Inl e | Inr hit \<Rightarrow> Inr True))"
  by (induction xs) (simp_all add: stops_cases split: sum.splits)

lemma walk_do_qualify:
  "\<not> bf_is_absolute fs fp \<Longrightarrow>
   walk (bf_exists fs) (search_chain fs s fp) =
     (case fst (do_qualify fs s fp) of
        Inl e \<Rightarrow> Inl e
      | Inr qualified \<Rightarrow> Inr (list_ex (stops fs) (search_chain fs s fp)))"
  by (auto simp: do_qualify_find search_chain_def walk_append walk_map_find list_ex_map_find
      stops_cases split: option.splits sum.splits)

lemma do_qualify_answers:
  "list_all (answers fs) (snd (do_qualify fs s fp)) \<Longrightarrow>
   fst (do_qualify fs s fp) =
     Inr (if bf_is_absolute fs fp then (fp, None)
          else
            (case find (\<lambda>i. hits fs (bf_slash fs (anchored fs s i) fp)) (rev (m_all_paths s)) of
               Some i \<Rightarrow> (bf_make_preferred fs (bf_slash fs (anchored fs s i) fp), Some i)
             | None \<Rightarrow>
                 if has_root_path s \<and> hits fs (bf_slash fs (m_root_path s) fp)
                 then (bf_make_preferred fs (bf_slash fs (m_root_path s) fp), None)
                 else (fp, None)))"
proof (cases "bf_is_absolute fs fp")
  case True
  then show ?thesis by (simp add: do_qualify_find)
next
  case False
  let ?f = "\<lambda>i. bf_slash fs (anchored fs s i) fp"
  let ?xs = "rev (m_all_paths s)"
  assume all: "list_all (answers fs) (snd (do_qualify fs s fp))"
  show ?thesis
  proof (cases "list_ex (stops fs) (map ?f ?xs)")
    case True
    with all False have ans: "list_all (answers fs) (asked_until (stops fs) (map ?f ?xs))"
      by (simp add: do_qualify_find search_chain_def asked_until_append)
    from True obtain i where i: "find (\<lambda>i. stops fs (?f i)) ?xs = Some i"
      by (auto simp: list_ex_map_find)
    with find_stops_hits [OF ans] have hit: "find (\<lambda>i. hits fs (?f i)) ?xs = Some i"
      by simp
    from find_Some_holds [OF hit] have "bf_exists fs (?f i) = Inr True"
      by (simp add: hits_def)
    with False i hit show ?thesis
      by (simp add: do_qualify_find)
  next
    case no: False
    with all False have ans: "list_all (answers fs) (asked_until (stops fs) (map ?f ?xs))"
      by (simp add: do_qualify_find search_chain_def asked_until_append asked_until_no_hit)
    from no have none: "find (\<lambda>i. stops fs (?f i)) ?xs = None"
      by (simp add: list_ex_map_find)
    with find_stops_hits [OF ans] have miss: "find (\<lambda>i. hits fs (?f i)) ?xs = None"
      by simp
    show ?thesis
    proof (cases "has_root_path s")
      case True
      with all False no have "list_all (answers fs) (map ?f ?xs @ [bf_slash fs (m_root_path s) fp])"
        by (auto simp: do_qualify_find search_chain_def asked_until_append asked_until_no_hit
            split: if_splits)
      from asked_root_answers [OF this] False none miss True show ?thesis
        by (simp add: do_qualify_find)
    next
      case nr: False
      with False none miss show ?thesis
        by (simp add: do_qualify_find)
    qed
  qed
qed

lemma do_qualify_fails:
  "\<not> list_all (answers fs) (snd (do_qualify fs s fp)) \<Longrightarrow> isl (fst (do_qualify fs s fp))"
proof (cases "bf_is_absolute fs fp")
  case True
  assume "\<not> list_all (answers fs) (snd (do_qualify fs s fp))"
  with True show ?thesis by (simp add: do_qualify_find)
next
  case False
  assume "\<not> list_all (answers fs) (snd (do_qualify fs s fp))"
  with False have "isl (walk (bf_exists fs) (search_chain fs s fp))"
    by (simp add: do_qualify_find walk_fails)
  with walk_do_qualify [OF False, of s] show ?thesis
    by (simp split: sum.splits)
qed

lemma exist_asked_do_qualify:
  "snd (exist fs s fp) =
     (if bf_is_absolute fs fp then [fp]
      else snd (do_qualify fs s fp)
           @ (if list_ex (stops fs) (search_chain fs s fp) then [] else [fp]))"
  by (simp add: exist_walk do_qualify_find exists_chain_def asked_until_append
      asked_until_no_hit)

lemma exist_outcome_do_qualify:
  "fst (exist fs s fp) =
     (if bf_is_absolute fs fp \<or> \<not> list_ex (stops fs) (search_chain fs s fp)
      then bf_exists fs fp
      else (case fst (do_qualify fs s fp) of Inl e \<Rightarrow> Inl e | Inr qualified \<Rightarrow> Inr True))"
proof (cases "bf_is_absolute fs fp")
  case True
  then show ?thesis by (simp add: exist_walk split: sum.splits)
next
  case False
  with walk_do_qualify [OF False, of s] show ?thesis
    by (simp add: exist_walk exists_chain_def walk_append split: sum.splits)
qed

text \<open>
  C3, as amended: for an absolute target \<open>do_qualify\<close> returns the target and no
  search path, and asks the file system nothing. For a relative target it walks the
  chain of \<open>exist\<close> without its last element and stops at the first test that does not
  answer no. When that test is a hit at a combined path, it returns the anchored join in
  preferred form with the search path as it is stored; when it is a hit at the root
  joined with the target, that join in preferred form and no search path; when it
  fails, \<open>do_qualify\<close> fails with it; and when every test answers no, it returns the
  target unchanged and no search path. So when every test made answers, the result is
  the first existing candidate of the walk, or the target; when a test made fails,
  there is no result. \<open>exist\<close> makes the same tests, then the test of the target itself
  when all of them answer no, and has the outcome of \<open>do_qualify\<close> (true for a qualified
  path) when one of them does not.
\<close>

theorem C3_do_qualify:
  "do_qualify fs s fp =
     ((if bf_is_absolute fs fp then Inr (fp, None)
       else
         (case find (\<lambda>i. stops fs (bf_slash fs (anchored fs s i) fp)) (rev (m_all_paths s)) of
            Some i \<Rightarrow>
              (case bf_exists fs (bf_slash fs (anchored fs s i) fp) of
                 Inl e \<Rightarrow> Inl e
               | Inr hit \<Rightarrow> Inr (bf_make_preferred fs (bf_slash fs (anchored fs s i) fp), Some i))
          | None \<Rightarrow>
              if has_root_path s then
                (case bf_exists fs (bf_slash fs (m_root_path s) fp) of
                   Inl e \<Rightarrow> Inl e
                 | Inr hit \<Rightarrow>
                     if hit then Inr (bf_make_preferred fs (bf_slash fs (m_root_path s) fp), None)
                     else Inr (fp, None))
              else Inr (fp, None))),
      asked_until (stops fs) (if bf_is_absolute fs fp then [] else search_chain fs s fp))
   \<and> (list_all (answers fs) (snd (do_qualify fs s fp)) \<longrightarrow>
        fst (do_qualify fs s fp) =
          Inr (if bf_is_absolute fs fp then (fp, None)
               else
                 (case find (\<lambda>i. hits fs (bf_slash fs (anchored fs s i) fp))
                         (rev (m_all_paths s)) of
                    Some i \<Rightarrow> (bf_make_preferred fs (bf_slash fs (anchored fs s i) fp), Some i)
                  | None \<Rightarrow>
                      if has_root_path s \<and> hits fs (bf_slash fs (m_root_path s) fp)
                      then (bf_make_preferred fs (bf_slash fs (m_root_path s) fp), None)
                      else (fp, None))))
   \<and> (\<not> list_all (answers fs) (snd (do_qualify fs s fp)) \<longrightarrow> isl (fst (do_qualify fs s fp)))
   \<and> snd (exist fs s fp) =
       (if bf_is_absolute fs fp then [fp]
        else snd (do_qualify fs s fp)
             @ (if list_ex (stops fs) (search_chain fs s fp) then [] else [fp]))
   \<and> fst (exist fs s fp) =
       (if bf_is_absolute fs fp \<or> \<not> list_ex (stops fs) (search_chain fs s fp)
        then bf_exists fs fp
        else (case fst (do_qualify fs s fp) of Inl e \<Rightarrow> Inl e | Inr qualified \<Rightarrow> Inr True))"
  by (intro conjI impI;
      (rule do_qualify_find exist_asked_do_qualify exist_outcome_do_qualify
       | erule do_qualify_answers do_qualify_fails))

theorem C3_do_qualify_witness:
  "do_qualify (posix [''/proj/textures/wood.png'', ''/proj/wood.png''])
     (push_back (push_back (set_root_path (posix []) SearchPaths ''/proj'') ''textures'')
        ''/abs/shaders'')
     ''wood.png''
   = (Inr (''/proj/textures/wood.png'', Some ''textures''),
      [''/abs/shaders/wood.png'', ''/proj/textures/wood.png''])
   \<and> do_qualify (posix [''/proj/wood.png''])
     (push_back (push_back (set_root_path (posix []) SearchPaths ''/proj'') ''textures'')
        ''/abs/shaders'')
     ''wood.png''
   = (Inr (''/proj/wood.png'', None),
      [''/abs/shaders/wood.png'', ''/proj/textures/wood.png'', ''/proj/wood.png''])
   \<and> do_qualify (posix [''wood.png''])
     (push_back (push_back (set_root_path (posix []) SearchPaths ''/proj'') ''textures'')
        ''/abs/shaders'')
     ''wood.png''
   = (Inr (''wood.png'', None),
      [''/abs/shaders/wood.png'', ''/proj/textures/wood.png'', ''/proj/wood.png''])
   \<and> do_qualify (posix_denied [''/proj/wood.png''] [''/proj/textures/wood.png''])
     (push_back (push_back (set_root_path (posix []) SearchPaths ''/proj'') ''textures'')
        ''/abs/shaders'')
     ''wood.png''
   = (Inl FilesystemError, [''/abs/shaders/wood.png'', ''/proj/textures/wood.png''])"
  using C3_do_qualify [of "posix [''/proj/textures/wood.png'', ''/proj/wood.png'']"
      "push_back (push_back (set_root_path (posix []) SearchPaths ''/proj'') ''textures'')
        ''/abs/shaders''" "''wood.png''"]
    C3_do_qualify [of "posix [''/proj/wood.png'']"
      "push_back (push_back (set_root_path (posix []) SearchPaths ''/proj'') ''textures'')
        ''/abs/shaders''" "''wood.png''"]
    C3_do_qualify [of "posix [''wood.png'']"
      "push_back (push_back (set_root_path (posix []) SearchPaths ''/proj'') ''textures'')
        ''/abs/shaders''" "''wood.png''"]
    C3_do_qualify [of "posix_denied [''/proj/wood.png''] [''/proj/textures/wood.png'']"
      "push_back (push_back (set_root_path (posix []) SearchPaths ''/proj'') ''textures'')
        ''/abs/shaders''" "''wood.png''"]
  by (simp add: posix_def posix_denied_def posix_slash_def posix_is_absolute_def push_back_def
      set_root_path_def SearchPaths_def exists_chain_def search_chain_def anchored_def
      has_root_path_def bf_is_relative_def stops_def hits_def answers_def)

text \<open>
  In the same scenario \<open>do_qualify\<close> returns no path, not even the target unchanged: the
  first test throws.
\<close>

theorem C3_do_qualify_counterexample:
  "do_qualify (posix_denied [''/proj/wood.png''] [''/abs/shaders/wood.png''])
     (push_back (push_back (set_root_path (posix []) SearchPaths ''/proj'') ''textures'')
        ''/abs/shaders'')
     ''wood.png''
   = (Inl FilesystemError, [''/abs/shaders/wood.png''])"
  by (simp add: do_qualify_def posix_def posix_denied_def posix_slash_def
      posix_is_absolute_def push_back_def set_root_path_def SearchPaths_def has_root_path_def
      bf_is_relative_def)

section \<open>What \<open>remove\<close> leaves alone\<close>

lemma has_root_path_explicit:
  "has_root_path (s\<lparr>m_explicit_paths := xs\<rparr>) = has_root_path s"
  by (simp add: has_root_path_def)

lemma anchored_explicit:
  "anchored fs (s\<lparr>m_explicit_paths := xs\<rparr>) i = anchored fs s i"
  by (simp add: anchored_def has_root_path_def)

lemma to_string_loop_explicit:
  "to_string_loop fs (s\<lparr>m_explicit_paths := xs\<rparr>) root_path separator ps acc
     = to_string_loop fs s root_path separator ps acc"
  by (induction ps arbitrary: acc) auto

lemma exist_explicit:
  "exist fs (s\<lparr>m_explicit_paths := xs\<rparr>) fp = exist fs s fp"
  by (simp add: exist_walk exists_chain_def search_chain_def anchored_explicit
      has_root_path_explicit)

lemma do_qualify_explicit:
  "do_qualify fs (s\<lparr>m_explicit_paths := xs\<rparr>) fp = do_qualify fs s fp"
  by (simp add: do_qualify_find search_chain_def anchored_explicit has_root_path_explicit
      cong: option.case_cong sum.case_cong if_cong)

lemma do_to_string_explicit:
  "do_to_string fs (s\<lparr>m_explicit_paths := xs\<rparr>) separator reversed
     = do_to_string fs s separator reversed"
  by (simp add: do_to_string_def Let_def to_string_loop_explicit has_root_path_explicit)

text \<open>
  C10: for \<open>i < size()\<close>, \<open>remove\<close> returns a state with the same environment paths,
  the same combined paths and the same root; only the explicit paths lose their \<open>i\<close>-th
  entry. \<open>exist\<close>, \<open>do_qualify\<close> and \<open>do_to_string\<close> read the combined paths, so they
  answer after the remove as they did before it: the removed path is still searched.
\<close>

theorem C10_remove_frame:
  assumes "i < size_sp s"
  shows "\<exists>s'. remove s i = Inr s'
     \<and> m_environment_paths s' = m_environment_paths s
     \<and> m_all_paths s' = m_all_paths s
     \<and> m_root_path s' = m_root_path s
     \<and> m_explicit_paths s' = erase (m_explicit_paths s) i
     \<and> exist fs s' fp = exist fs s fp
     \<and> do_qualify fs s' fp = do_qualify fs s fp
     \<and> do_to_string fs s' separator reversed = do_to_string fs s separator reversed"
  using assms
  by (simp add: remove_def exist_explicit do_qualify_explicit do_to_string_explicit)

theorem C10_remove_frame_witness:
  "0 < size_sp (push_back SearchPaths ''textures'')
   \<and> (\<exists>s'. remove (push_back SearchPaths ''textures'') 0 = Inr s'
          \<and> m_explicit_paths s' = []
          \<and> m_all_paths s' = [''textures'']
          \<and> exist (posix [''textures/wood.png'']) s' ''wood.png''
              = (Inr True, [''textures/wood.png'']))"
proof -
  have h: "0 < size_sp (push_back SearchPaths ''textures'')"
    by (simp add: size_sp_def push_back_def)
  show ?thesis
    using h C10_remove_frame [OF h, of "posix [''textures/wood.png'']" "''wood.png''"]
    by (auto simp: push_back_def SearchPaths_def erase_def exist_def Let_def posix_def
        posix_denied_def posix_slash_def posix_is_absolute_def has_root_path_def
        bf_is_relative_def)
qed

section \<open>Printing the search paths\<close>

lemma to_string_loop_foldl:
  "to_string_loop fs s r sep ps acc =
     foldl (append_path sep) acc
       (map (\<lambda>p. if bf_is_relative fs p then bf_slash fs (m_root_path s) p else p)
          (filter (\<lambda>p. r \<or> bf_is_absolute fs p) ps))"
  by (induction ps arbitrary: acc) (auto simp: bf_is_relative_def)

lemma foldl_append_path:
  "\<forall>p \<in> set ps. p \<noteq> [] \<Longrightarrow>
   foldl (append_path sep) acc ps =
     (if acc = [] then join_with sep ps else acc @ concat (map (\<lambda>q. sep # q) ps))"
  by (induction ps arbitrary: acc) (auto simp: append_path_def)

text \<open>
  What \<open>do_to_string\<close> prints in every state, given that the empty path is not absolute
  and that joining onto a root that is set does not give the empty path: the root, when
  one is set, goes through the same step as the search paths behind it, and is joined
  onto itself when it is relative. Everything else is as the effective paths have it.
\<close>

lemma do_to_string_printed:
  assumes abs: "\<not> bf_is_absolute fs []"
    and slash: "\<And>p. has_root_path s \<Longrightarrow> bf_slash fs (m_root_path s) p \<noteq> []"
  shows "do_to_string fs s sep reversed =
     join_with sep
       (if reversed
        then rev ((if has_root_path s then [anchored fs s (m_root_path s)] else [])
                  @ map (anchored fs s)
                      (filter (\<lambda>p. has_root_path s \<or> bf_is_absolute fs p) (m_all_paths s)))
        else (if has_root_path s then [anchored fs s (m_root_path s)] else [])
             @ map (anchored fs s)
                 (filter (\<lambda>p. has_root_path s \<or> bf_is_absolute fs p) (m_all_paths s)))"
proof -
  let ?f = "\<lambda>p. if bf_is_relative fs p then bf_slash fs (m_root_path s) p else p"
  let ?keep = "\<lambda>p. has_root_path s \<or> bf_is_absolute fs p"
  let ?paths = "(if has_root_path s then [m_root_path s] else []) @ m_all_paths s"
  define printed where "printed =
    (if has_root_path s then [anchored fs s (m_root_path s)] else [])
    @ map (anchored fs s) (filter ?keep (m_all_paths s))"
  have printed: "map ?f (filter ?keep ?paths) = printed"
    by (auto simp: printed_def anchored_def bf_is_relative_def)
  have nonempty: "\<forall>p \<in> set printed. p \<noteq> []"
    using abs slash
    by (auto simp: printed_def anchored_def bf_is_relative_def has_root_path_def) (metis+)
  have rev_paths: "map ?f (filter ?keep (rev xs)) = rev (map ?f (filter ?keep xs))" for xs
    by (simp only: rev_map rev_filter)
  have "do_to_string fs s sep reversed =
      foldl (append_path sep) [] (map ?f (filter ?keep (if reversed then rev ?paths else ?paths)))"
    by (simp add: do_to_string_def Let_def to_string_loop_foldl)
  also have "map ?f (filter ?keep (if reversed then rev ?paths else ?paths)) =
      (if reversed then rev printed else printed)"
    by (cases reversed) (simp_all only: rev_paths printed if_True if_False)
  finally have "do_to_string fs s sep reversed =
      join_with sep (if reversed then rev printed else printed)"
    using nonempty by (simp add: foldl_append_path)
  then show ?thesis
    by (simp only: printed_def)
qed

text \<open>With no root, or an absolute one, these are the effective paths.\<close>

lemma do_to_string_effective_paths:
  assumes root: "\<not> has_root_path s \<or> bf_is_absolute fs (m_root_path s)"
    and abs: "\<not> bf_is_absolute fs []"
    and slash: "\<And>p. has_root_path s \<Longrightarrow> bf_slash fs (m_root_path s) p \<noteq> []"
  shows "do_to_string fs s sep reversed =
     join_with sep (if reversed then rev (effective_paths fs s) else effective_paths fs s)"
proof -
  from root have "anchored fs s (m_root_path s) = m_root_path s"
    by (auto simp: anchored_def bf_is_relative_def)
  with do_to_string_printed [OF abs slash, of sep reversed] show ?thesis
    by (simp add: effective_paths_def)
qed

text \<open>
  C5, on the code: with the relative root \<open>proj\<close> and the search path \<open>tex\<close>,
  \<open>do_to_string\<close> prints \<open>proj/proj\<close>, the root joined onto itself, where the effective
  paths have the root \<open>proj\<close>: first in stored order, last in reversed order.
\<close>

theorem C5_relative_root_joined_onto_itself:
  "do_to_string (posix []) (push_back (set_root_path (posix []) SearchPaths ''proj'') ''tex'')
     CHR '':'' False = ''proj/proj:proj/tex''
   \<and> do_to_string (posix []) (push_back (set_root_path (posix []) SearchPaths ''proj'') ''tex'')
     CHR '':'' True = ''proj/tex:proj/proj''
   \<and> join_with CHR '':''
        (effective_paths (posix [])
           (push_back (set_root_path (posix []) SearchPaths ''proj'') ''tex''))
     = ''proj:proj/tex''
   \<and> join_with CHR '':''
        (rev (effective_paths (posix [])
           (push_back (set_root_path (posix []) SearchPaths ''proj'') ''tex'')))
     = ''proj/tex:proj''"
  by (simp add: do_to_string_def posix_def posix_denied_def posix_slash_def
      posix_is_absolute_def push_back_def set_root_path_def SearchPaths_def has_root_path_def
      bf_is_relative_def append_path_def effective_paths_def anchored_def)

end
